theory Spec2Isabelle
  imports Main "HOL-Library.AList"
begin

section \<open>epublib.reader: a shallow embedding\<close>

text \<open>
  The theory follows \<^verbatim>\<open>src/epublib/reader.py\<close> function by function.

  Conventions of the embedding.
  \<^item> \<^verbatim>\<open>bytes\<close>/\<^verbatim>\<open>bytearray\<close> values are lists of 8-bit characters.
  \<^item> A Python \<^verbatim>\<open>str\<close> is represented by its UTF-8 encoding, again a list of
    8-bit characters. Every string operation the module performs (comparison,
    concatenation, \<^verbatim>\<open>split("/")\<close>, \<^verbatim>\<open>"/".join\<close>, \<^verbatim>\<open>rfind\<close> of an ASCII
    character, slicing at a position found by \<^verbatim>\<open>rfind\<close>) gives the same result on
    the encoding as on the code points, because an ASCII byte never occurs inside a
    multi-byte UTF-8 sequence. Under this representation \<^verbatim>\<open>bytes.decode("utf-8")\<close> is
    a validity check followed by the identity, and \<^verbatim>\<open>str.encode("utf-8")\<close> is the
    identity.
  \<^item> A \<^verbatim>\<open>dict\<close> is an association list in insertion order;
    \<^verbatim>\<open>d[k] = v\<close> is \<^const>\<open>AList.update\<close> (an existing key keeps its position, a new
    key goes last), \<^verbatim>\<open>d[k]\<close> is \<^const>\<open>map_of\<close> with \<^verbatim>\<open>KeyError\<close> on \<^const>\<open>None\<close>.
  \<^item> Every exception is a value of type \<open>error\<close>; a function that can raise returns
    \<open>error + 'a\<close>, with \<^const>\<open>Inl\<close> for the exception.
  \<^item> The three libraries the module calls are outside the repository. The archive
    decoder \<^verbatim>\<open>stream_unzip\<close> is represented by the finite sequence of entries it
    yields; \<^verbatim>\<open>lxml\<close>'s recovering parser and \<^verbatim>\<open>html2text\<close> are parameters, collected
    in the record \<open>collaborators\<close>. \<^verbatim>\<open>os.path.basename\<close> and \<^verbatim>\<open>pathlib.Path.suffix\<close>
    are written out as the POSIX flavour of CPython (3.8 to 3.12) defines them.
\<close>

subsection \<open>Exceptions\<close>

datatype error =
    MalformedEpubException string
  | KeyError string
  | IndexError
  | UnicodeDecodeError
  | AttributeError

type_synonym bytes = "char list"

subsection \<open>String primitives of Python\<close>

text \<open>\<^verbatim>\<open>s.rfind(c)\<close> for a one-character \<open>c\<close>: the highest index of \<open>c\<close>, or \<open>-1\<close>.\<close>

primrec rfind_from :: "char \<Rightarrow> string \<Rightarrow> int \<Rightarrow> int \<Rightarrow> int" where
  "rfind_from c [] i found = found"
| "rfind_from c (x # xs) i found = rfind_from c xs (i + 1) (if x = c then i else found)"

definition rfind :: "string \<Rightarrow> char \<Rightarrow> int" where
  "rfind s c = rfind_from c s 0 (- 1)"

text \<open>\<^verbatim>\<open>s.split(c)\<close> for a one-character separator: \<open>n\<close> separators give \<open>n + 1\<close> pieces.\<close>

fun split_str :: "string \<Rightarrow> char \<Rightarrow> string list" where
  "split_str [] c = [[]]"
| "split_str (x # xs) c =
     (if x = c then [] # split_str xs c
      else (case split_str xs c of
              [] \<Rightarrow> [[x]]
            | w # ws \<Rightarrow> (x # w) # ws))"

text \<open>\<^verbatim>\<open>sep.join(parts)\<close>.\<close>

fun join :: "string \<Rightarrow> string list \<Rightarrow> string" where
  "join sep [] = []"
| "join sep [p] = p"
| "join sep (p # q # ps) = p @ sep @ join sep (q # ps)"

text \<open>\<^verbatim>\<open>xs[0]\<close>: raises \<^verbatim>\<open>IndexError\<close> on the empty list.\<close>

definition index0 :: "'a list \<Rightarrow> error + 'a" where
  "index0 xs = (case xs of [] \<Rightarrow> Inl IndexError | x # _ \<Rightarrow> Inr x)"

text \<open>\<^verbatim>\<open>d[k]\<close> on a dictionary: raises \<^verbatim>\<open>KeyError(k)\<close> when the key is absent.\<close>

definition getitem :: "(string \<times> 'v) list \<Rightarrow> string \<Rightarrow> error + 'v" where
  "getitem d k = (case map_of d k of None \<Rightarrow> Inl (KeyError k) | Some v \<Rightarrow> Inr v)"

text \<open>\<^verbatim>\<open>k in d\<close>.\<close>

definition contains :: "(string \<times> 'v) list \<Rightarrow> string \<Rightarrow> bool" where
  "contains d k = (map_of d k \<noteq> None)"

subsection \<open>UTF-8\<close>

text \<open>
  Well-formed UTF-8 byte sequences, as the strict decoder of CPython accepts them
  (no overlong forms, no surrogates, nothing above U+10FFFF).
\<close>

definition byte_in :: "char \<Rightarrow> nat \<Rightarrow> nat \<Rightarrow> bool" where
  "byte_in b lo hi = (lo \<le> of_char b \<and> of_char b \<le> (hi :: nat))"

fun utf8_valid :: "bytes \<Rightarrow> bool" where
  "utf8_valid [] = True"
| "utf8_valid (a # rest) =
     (if byte_in a 0x00 0x7F then utf8_valid rest
      else (case rest of
        [] \<Rightarrow> False
      | b # rest1 \<Rightarrow>
          if byte_in a 0xC2 0xDF then byte_in b 0x80 0xBF \<and> utf8_valid rest1
          else (case rest1 of
            [] \<Rightarrow> False
          | c # rest2 \<Rightarrow>
              if byte_in a 0xE0 0xEF then
                byte_in b (if a = char_of (0xE0 :: nat) then 0xA0 else 0x80)
                          (if a = char_of (0xED :: nat) then 0x9F else 0xBF)
                \<and> byte_in c 0x80 0xBF \<and> utf8_valid rest2
              else (case rest2 of
                [] \<Rightarrow> False
              | d # rest3 \<Rightarrow>
                  byte_in a 0xF0 0xF4
                  \<and> byte_in b (if a = char_of (0xF0 :: nat) then 0x90 else 0x80)
                              (if a = char_of (0xF4 :: nat) then 0x8F else 0xBF)
                  \<and> byte_in c 0x80 0xBF \<and> byte_in d 0x80 0xBF \<and> utf8_valid rest3))))"

text \<open>\<^verbatim>\<open>decode(data, encoding="utf-8")\<close> (reader.py, line 47).\<close>

definition decode :: "bytes \<Rightarrow> error + string" where
  "decode data = (if utf8_valid data then Inr data else Inl UnicodeDecodeError)"

text \<open>\<^verbatim>\<open>str.encode("utf-8")\<close> on a string that came out of \<^const>\<open>decode\<close>.\<close>

definition encode :: "string \<Rightarrow> bytes" where
  "encode s = s"

subsection \<open>Paths: \<^verbatim>\<open>os.path.basename\<close> and \<^verbatim>\<open>pathlib.Path(p).suffix\<close>\<close>

text \<open>\<^verbatim>\<open>posixpath.basename\<close>: \<^verbatim>\<open>i = p.rfind("/") + 1; return p[i:]\<close>.\<close>

definition basename :: "string \<Rightarrow> string" where
  "basename p = drop (nat (rfind p CHR ''/'' + 1)) p"

text \<open>
  \<^verbatim>\<open>PurePosixPath(p).name\<close>: the last component of the path, where empty components
  and \<^verbatim>\<open>.\<close> components are dropped when the path is parsed; the empty string when no
  component is left.
\<close>

definition path_name :: "string \<Rightarrow> string" where
  "path_name p =
     (case rev (filter (\<lambda>x. x \<noteq> [] \<and> x \<noteq> ''.'') (split_str p CHR ''/'')) of
        [] \<Rightarrow> []
      | x # _ \<Rightarrow> x)"

text \<open>
  \<^verbatim>\<open>PurePosixPath(p).suffix\<close>:
  \<^verbatim>\<open>i = name.rfind("."); return name[i:] if 0 < i < len(name) - 1 else ""\<close>.
\<close>

definition suffix :: "string \<Rightarrow> string" where
  "suffix p =
     (let name = path_name p; i = rfind name CHR ''.''
      in if 0 < i \<and> i < int (length name) - 1 then drop (nat i) name else [])"

subsection \<open>XML trees, as \<^verbatim>\<open>lxml\<close> presents them\<close>

text \<open>
  An element has a tag in Clark notation (\<^verbatim>\<open>{namespace}local\<close>), a dictionary of
  attributes and a list of children. Comments and processing instructions are nodes of
  the tree too; their \<^verbatim>\<open>tag\<close> is not a string. Text content plays no role in the module.
\<close>

datatype xml =
    Element string "(string \<times> string) list" "xml list"
  | NonElement

text \<open>\<^verbatim>\<open>"{%s}%s" % (namespace, local)\<close>.\<close>

definition qname :: "string \<Rightarrow> string \<Rightarrow> string" where
  "qname ns local = ''{'' @ ns @ ''}'' @ local"

definition NAMESPACES_OPF :: string where
  "NAMESPACES_OPF = ''http://www.idpf.org/2007/opf''"

definition NAMESPACES_CONTAINERS :: string where
  "NAMESPACES_CONTAINERS = ''urn:oasis:names:tc:opendocument:xmlns:container''"

text \<open>\<^verbatim>\<open>node.tag == t\<close> for a string \<open>t\<close>.\<close>

fun has_tag :: "xml \<Rightarrow> string \<Rightarrow> bool" where
  "has_tag (Element t _ _) s = (t = s)"
| "has_tag NonElement s = False"

text \<open>\<^verbatim>\<open>node.get(key)\<close>, with \<^verbatim>\<open>None\<close> as the default.\<close>

fun get :: "xml \<Rightarrow> string \<Rightarrow> string option" where
  "get (Element _ attrs _) key = map_of attrs key"
| "get NonElement key = None"

fun children :: "xml \<Rightarrow> xml list" where
  "children (Element _ _ cs) = cs"
| "children NonElement = []"

text \<open>\<^verbatim>\<open>node.iter()\<close>: the node itself, then all its descendants, in document order.\<close>

fun iter :: "xml \<Rightarrow> xml list" where
  "iter (Element t attrs cs) = Element t attrs cs # concat (map iter cs)"
| "iter NonElement = [NonElement]"

text \<open>The proper descendants of a node, in document order (the \<^verbatim>\<open>.//\<close> axis).\<close>

definition descendants :: "xml \<Rightarrow> xml list" where
  "descendants node = concat (map iter (children node))"

text \<open>\<^verbatim>\<open>tree.find(t)\<close> for a tag \<open>t\<close>: the first child with that tag.\<close>

definition find_child :: "xml \<Rightarrow> string \<Rightarrow> xml option" where
  "find_child tree t = List.find (\<lambda>c. has_tag c t) (children tree)"

text \<open>
  \<^verbatim>\<open>tree.findall(".//xmlns:rootfile[@media-type]", namespaces={"xmlns": CONTAINERS})\<close>:
  the descendants with tag \<^verbatim>\<open>{CONTAINERS}rootfile\<close> that carry a \<^verbatim>\<open>media-type\<close>
  attribute, in document order.
\<close>

definition findall_rootfile :: "xml \<Rightarrow> xml list" where
  "findall_rootfile tree =
     filter (\<lambda>e. has_tag e (qname NAMESPACES_CONTAINERS ''rootfile'')
                 \<and> get e ''media-type'' \<noteq> None)
            (descendants tree)"

subsection \<open>External collaborators\<close>

text \<open>
  \<^verbatim>\<open>etree.fromstring(text, parser=xml_parser_singleton)\<close> with a recovering parser
  returns a tree, or \<^verbatim>\<open>None\<close> when nothing can be recovered;
  \<^verbatim>\<open>html2text.html2text\<close> maps a string to a string.
\<close>

record collaborators =
  fromstring :: "bytes \<Rightarrow> xml option"
  html2text :: "string \<Rightarrow> string"

subsection \<open>The module's data\<close>

definition CONTENT_FILETYPES :: "string set" where
  "CONTENT_FILETYPES = {''.xhtml'', ''.xml'', ''.opf''}"

record Epub =
  texts :: "string list"

record UncompressedEpub =
  rootfiles :: "string list"
  files :: "(string \<times> bytes) list"

text \<open>One tuple yielded by \<^verbatim>\<open>stream_unzip\<close>.\<close>

record entry =
  file_path :: bytes
  file_size :: "nat option"
  unzipped_chunks :: "bytes list"

definition no_rootfile_msg :: string where
  "no_rootfile_msg =
     ''No root file found in META-INF/container.xml definition.''
     @ '' (Epub is not correctly packaged, unable to find content)''"

definition no_manifest_msg :: string where
  "no_manifest_msg = ''Rootfile has no manifest''"

subsection \<open>\<^verbatim>\<open>Epub.dump_contents\<close> (lines 29-34)\<close>

definition dump_contents :: "Epub \<Rightarrow> string" where
  "dump_contents self = fold (\<lambda>text epub_text. epub_text @ text) (texts self) []"

subsection \<open>\<^verbatim>\<open>normalize_path\<close> (lines 51-101)\<close>

text \<open>
  The loop \<^verbatim>\<open>for path in files\<close> visits the keys in insertion order and reads
  \<^verbatim>\<open>files[path]\<close>, the value stored with the key; the model visits the pairs.
\<close>

fun normalize_loop ::
  "(string \<times> bytes) list \<Rightarrow> (string \<times> bytes) list \<Rightarrow> (string \<times> bytes) list" where
  "normalize_loop [] normalized_dict = normalized_dict"
| "normalize_loop ((path, payload) # rest) normalized_dict =
     (let path_arr = split_str path CHR ''/''
      in if length path_arr = 1 then normalize_loop rest normalized_dict
         else normalize_loop rest
                (AList.update (join ''/'' (drop 1 path_arr)) payload normalized_dict))"

definition normalize_path ::
  "string list \<Rightarrow> (string \<times> bytes) list \<Rightarrow> error + (string \<times> bytes) list" where
  "normalize_path rfiles fmap =
     (case index0 rfiles of
        Inl e \<Rightarrow> Inl e
      | Inr first \<Rightarrow>
          if contains fmap first then Inr fmap
          else Inr (normalize_loop fmap []))"

subsection \<open>\<^verbatim>\<open>parse_as_etree\<close> (lines 174-183)\<close>

definition parse_as_etree :: "collaborators \<Rightarrow> bytes \<Rightarrow> error + xml option" where
  "parse_as_etree X xml_data =
     (case decode xml_data of
        Inl e \<Rightarrow> Inl e
      | Inr xml_as_string \<Rightarrow> Inr (fromstring X (encode xml_as_string)))"

subsection \<open>\<^verbatim>\<open>extract_root_path\<close> (lines 104-119)\<close>

fun rootfile_loop :: "xml list \<Rightarrow> string list \<Rightarrow> string list" where
  "rootfile_loop [] acc = acc"
| "rootfile_loop (root_file # rest) acc =
     (let mediatype = get root_file ''media-type'';
          fullpath = get root_file ''full-path''
      in if mediatype = Some ''application/oebps-package+xml''
         then (case fullpath of
                 None \<Rightarrow> rootfile_loop rest acc
               | Some p \<Rightarrow> rootfile_loop rest (acc @ [p]))
         else rootfile_loop rest acc)"

definition extract_root_path :: "collaborators \<Rightarrow> bytes \<Rightarrow> error + string list" where
  "extract_root_path X container_file =
     (case parse_as_etree X container_file of
        Inl e \<Rightarrow> Inl e
      | Inr None \<Rightarrow> Inl AttributeError
      | Inr (Some tree) \<Rightarrow> Inr (rootfile_loop (findall_rootfile tree) []))"

subsection \<open>\<^verbatim>\<open>read_unzipped_chunks\<close> (lines 122-136)\<close>

fun chunk_loop :: "bytes list \<Rightarrow> bool \<Rightarrow> bytes option \<Rightarrow> bytes option" where
  "chunk_loop [] is_text file_bytes = file_bytes"
| "chunk_loop (chunk # rest) is_text file_bytes =
     (if \<not> is_text then chunk_loop rest is_text file_bytes
      else (case file_bytes of
              None \<Rightarrow> chunk_loop rest is_text (Some chunk)
            | Some b \<Rightarrow> chunk_loop rest is_text (Some (b @ chunk))))"

definition read_unzipped_chunks :: "bytes list \<Rightarrow> bool \<Rightarrow> bytes option" where
  "read_unzipped_chunks file_chunks is_text = chunk_loop file_chunks is_text None"

subsection \<open>\<^verbatim>\<open>uncompress_epub\<close> (lines 139-171)\<close>

text \<open>Line 151: \<^verbatim>\<open>is_textfile = file_ext in CONTENT_FILETYPES\<close>.\<close>

definition is_textfile :: "string \<Rightarrow> bool" where
  "is_textfile filepath = (suffix filepath \<in> CONTENT_FILETYPES)"

text \<open>The body of the loop over the archive's entries; the state is \<open>(files, rootfiles)\<close>.\<close>

definition process_entry ::
  "collaborators \<Rightarrow> entry \<Rightarrow> (string \<times> bytes) list \<times> string list
     \<Rightarrow> error + ((string \<times> bytes) list \<times> string list)" where
  "process_entry X e st =
     (case decode (file_path e) of
        Inl err \<Rightarrow> Inl err
      | Inr filepath \<Rightarrow>
          (let filename = basename filepath;
               current_bytes = read_unzipped_chunks (unzipped_chunks e) (is_textfile filepath)
           in case current_bytes of
                None \<Rightarrow> Inr st
              | Some b \<Rightarrow>
                  if filename = ''container.xml''
                  then (case extract_root_path X b of
                          Inl err \<Rightarrow> Inl err
                        | Inr r \<Rightarrow> Inr (fst st, r))
                  else Inr (AList.update filepath b (fst st), snd st)))"

fun entries_loop ::
  "collaborators \<Rightarrow> entry list \<Rightarrow> (string \<times> bytes) list \<times> string list
     \<Rightarrow> error + ((string \<times> bytes) list \<times> string list)" where
  "entries_loop X [] st = Inr st"
| "entries_loop X (e # es) st =
     (case process_entry X e st of
        Inl err \<Rightarrow> Inl err
      | Inr st' \<Rightarrow> entries_loop X es st')"

definition uncompress_epub :: "collaborators \<Rightarrow> entry list \<Rightarrow> error + UncompressedEpub" where
  "uncompress_epub X stream =
     (case entries_loop X stream ([], []) of
        Inl err \<Rightarrow> Inl err
      | Inr (fmap, rfiles) \<Rightarrow>
          if length rfiles = 0 then Inl (MalformedEpubException no_rootfile_msg)
          else (case normalize_path rfiles fmap of
                  Inl err \<Rightarrow> Inl err
                | Inr normalized_files \<Rightarrow>
                    Inr \<lparr>rootfiles = rfiles, files = normalized_files\<rparr>))"

subsection \<open>\<^verbatim>\<open>fix_mediatype\<close> (lines 186-193)\<close>

definition fix_mediatype :: "string option \<Rightarrow> string option" where
  "fix_mediatype mediatype =
     (if mediatype = Some ''image/jpg'' then Some ''image/jpeg'' else mediatype)"

subsection \<open>\<^verbatim>\<open>extract_textfiles\<close> (lines 196-225)\<close>

fun item_loop ::
  "collaborators \<Rightarrow> (string \<times> bytes) list \<Rightarrow> string \<Rightarrow> xml list \<Rightarrow> string list
     \<Rightarrow> error + string list" where
  "item_loop X fmap root_dir [] acc = Inr acc"
| "item_loop X fmap root_dir (item # rest) acc =
     (if \<not> has_tag item (qname NAMESPACES_OPF ''item'') then item_loop X fmap root_dir rest acc
      else (let media_type = fix_mediatype (get item ''media-type'')
            in if media_type = Some ''application/xhtml+xml'' then
                 (case get item ''href'' of
                    None \<Rightarrow> item_loop X fmap root_dir rest acc
                  | Some filepath \<Rightarrow>
                      (let normalized_path = root_dir @ ''/'' @ filepath
                       in case getitem fmap normalized_path of
                            Inl err \<Rightarrow> Inl err
                          | Inr contents \<Rightarrow>
                              (case decode contents of
                                 Inl err \<Rightarrow> Inl err
                               | Inr str_data \<Rightarrow>
                                   item_loop X fmap root_dir rest
                                     (acc @ [html2text X str_data]))))
               else item_loop X fmap root_dir rest acc))"

definition extract_textfiles ::
  "collaborators \<Rightarrow> bytes \<Rightarrow> (string \<times> bytes) list \<Rightarrow> string \<Rightarrow> error + Epub" where
  "extract_textfiles X rootfile fmap root_dir =
     (case parse_as_etree X rootfile of
        Inl err \<Rightarrow> Inl err
      | Inr None \<Rightarrow> Inl AttributeError
      | Inr (Some tree) \<Rightarrow>
          (case find_child tree (qname NAMESPACES_OPF ''manifest'') of
             None \<Rightarrow> Inl (MalformedEpubException no_manifest_msg)
           | Some manifest \<Rightarrow>
               (case item_loop X fmap root_dir (iter manifest) [] of
                  Inl err \<Rightarrow> Inl err
                | Inr ts \<Rightarrow> Inr \<lparr>texts = ts\<rparr>)))"

subsection \<open>\<^verbatim>\<open>read_uncompressed_epubs\<close> and \<^verbatim>\<open>read\<close> (lines 228-245)\<close>

fun publication_loop ::
  "collaborators \<Rightarrow> (string \<times> bytes) list \<Rightarrow> string list \<Rightarrow> Epub list \<Rightarrow> error + Epub list" where
  "publication_loop X fmap [] publications = Inr publications"
| "publication_loop X fmap (rootfile_path # rest) publications =
     (case index0 (split_str rootfile_path CHR ''/'') of
        Inl err \<Rightarrow> Inl err
      | Inr rootfile_dir \<Rightarrow>
          (case getitem fmap rootfile_path of
             Inl err \<Rightarrow> Inl err
           | Inr rootfile \<Rightarrow>
               (case extract_textfiles X rootfile fmap rootfile_dir of
                  Inl err \<Rightarrow> Inl err
                | Inr epub \<Rightarrow> publication_loop X fmap rest (publications @ [epub]))))"

definition read_uncompressed_epubs :: "collaborators \<Rightarrow> UncompressedEpub \<Rightarrow> error + Epub list" where
  "read_uncompressed_epubs X uncompressed_epub =
     publication_loop X (files uncompressed_epub) (rootfiles uncompressed_epub) []"

definition read :: "collaborators \<Rightarrow> entry list \<Rightarrow> error + Epub list" where
  "read X stream =
     (case uncompress_epub X stream of
        Inl err \<Rightarrow> Inl err
      | Inr uncompressed_epub \<Rightarrow> read_uncompressed_epubs X uncompressed_epub)"

section \<open>Notions used to state the properties\<close>

subsection \<open>Content documents of a manifest\<close>





text \<open>Results in sequence: the first error, or all the values.\<close>

fun collect :: "(error + 'a) list \<Rightarrow> error + 'a list" where
  "collect [] = Inr []"
| "collect (Inl err # rs) = Inl err"
| "collect (Inr x # rs) = (case collect rs of Inl err \<Rightarrow> Inl err | Inr xs \<Rightarrow> Inr (x # xs))"

subsection \<open>Rootfile declarations of a container\<close>

text \<open>
  The \<^verbatim>\<open>full-path\<close> of a node that is a \<^verbatim>\<open>{CONTAINERS}rootfile\<close> element with media
  type \<^verbatim>\<open>application/oebps-package+xml\<close> and a \<^verbatim>\<open>full-path\<close> attribute.
\<close>

definition declared_path :: "xml \<Rightarrow> string option" where
  "declared_path node =
     (if has_tag node (qname NAMESPACES_CONTAINERS ''rootfile'')
         \<and> get node ''media-type'' = Some ''application/oebps-package+xml''
      then get node ''full-path'' else None)"

text \<open>The same, with the further demand that the \<^verbatim>\<open>full-path\<close> is not empty.\<close>

definition declared_nonempty_path :: "xml \<Rightarrow> string option" where
  "declared_nonempty_path node =
     (case declared_path node of
        None \<Rightarrow> None
      | Some p \<Rightarrow> if p = [] then None else Some p)"

subsection \<open>Re-keying a file map\<close>

text \<open>
  A path without its first slash-separated segment, and the entries of a file map
  that have more than one segment, re-keyed in that way and kept in their order.
  Where two entries get the same key, the later one is the one a dictionary keeps:
  the map denoted is \<open>map_of (rev (rekeyed fmap))\<close>.
\<close>

definition strip_first_segment :: "string \<Rightarrow> string" where
  "strip_first_segment p = join ''/'' (drop 1 (split_str p CHR ''/''))"

definition rekeyed :: "(string \<times> bytes) list \<Rightarrow> (string \<times> bytes) list" where
  "rekeyed fmap =
     map (\<lambda>(p, payload). (strip_first_segment p, payload))
         (filter (\<lambda>(p, payload). length (split_str p CHR ''/'') \<noteq> 1) fmap)"

subsection \<open>The publication of a rootfile\<close>

text \<open>
  The Epub built from one declared rootfile path: the rootfile is looked up in the
  file map and its texts are extracted relative to the first segment of the path.
\<close>

definition publication ::
  "collaborators \<Rightarrow> (string \<times> bytes) list \<Rightarrow> string \<Rightarrow> error + Epub" where
  "publication X fmap rootfile_path =
     (case index0 (split_str rootfile_path CHR ''/'') of
        Inl err \<Rightarrow> Inl err
      | Inr rootfile_dir \<Rightarrow>
          (case getitem fmap rootfile_path of
             Inl err \<Rightarrow> Inl err
           | Inr rootfile \<Rightarrow> extract_textfiles X rootfile fmap rootfile_dir))"

subsection \<open>Extensions\<close>



subsection \<open>Kinds of error\<close>

text \<open>The structural errors are the two \<^verbatim>\<open>MalformedEpubException\<close>s of the module.\<close>

fun is_structural :: "error \<Rightarrow> bool" where
  "is_structural (MalformedEpubException _) = True"
| "is_structural _ = False"


subsection \<open>Entries of the archive\<close>

text \<open>An archive entry whose payload is kept: its decoded path and the bytes read.\<close>

definition retained :: "entry \<Rightarrow> (string \<times> bytes) option" where
  "retained e =
     (case decode (file_path e) of
        Inl _ \<Rightarrow> None
      | Inr filepath \<Rightarrow>
          (case read_unzipped_chunks (unzipped_chunks e) (is_textfile filepath) of
             None \<Rightarrow> None
           | Some b \<Rightarrow> Some (filepath, b)))"

text \<open>The payload of an entry that is read as a container: kept, with basename \<^verbatim>\<open>container.xml\<close>.\<close>

definition container_payload :: "entry \<Rightarrow> bytes option" where
  "container_payload e =
     (case retained e of
        None \<Rightarrow> None
      | Some (filepath, b) \<Rightarrow> if basename filepath = ''container.xml'' then Some b else None)"

section \<open>Example documents and archives\<close>

text \<open>
  Small documents, the trees a namespace-aware XML parser builds for them, and a
  parser that knows exactly these documents. The converter of the examples leaves
  its input as it is; the theorems below hold for every parser and every converter.
\<close>

definition container_doc :: bytes where
  \<open>container_doc =
     ''<container xmlns="urn:oasis:names:tc:opendocument:xmlns:container">''
     @ ''<rootfiles><rootfile full-path="OEBPS/content.opf" ''
     @ ''media-type="application/oebps-package+xml"/></rootfiles></container>''\<close>

definition container_tree :: xml where
  "container_tree =
     Element (qname NAMESPACES_CONTAINERS ''container'') []
       [Element (qname NAMESPACES_CONTAINERS ''rootfiles'') []
         [Element (qname NAMESPACES_CONTAINERS ''rootfile'')
            [(''full-path'', ''OEBPS/content.opf''),
             (''media-type'', ''application/oebps-package+xml'')] []]]"

definition blank_path_doc :: bytes where
  \<open>blank_path_doc =
     ''<container xmlns="urn:oasis:names:tc:opendocument:xmlns:container">''
     @ ''<rootfiles><rootfile full-path="" ''
     @ ''media-type="application/oebps-package+xml"/></rootfiles></container>''\<close>

definition blank_path_tree :: xml where
  "blank_path_tree =
     Element (qname NAMESPACES_CONTAINERS ''container'') []
       [Element (qname NAMESPACES_CONTAINERS ''rootfiles'') []
         [Element (qname NAMESPACES_CONTAINERS ''rootfile'')
            [(''full-path'', []),
             (''media-type'', ''application/oebps-package+xml'')] []]]"

definition undeclared_doc :: bytes where
  \<open>undeclared_doc =
     ''<container xmlns="urn:oasis:names:tc:opendocument:xmlns:container">''
     @ ''<rootfiles/></container>''\<close>

definition undeclared_tree :: xml where
  "undeclared_tree =
     Element (qname NAMESPACES_CONTAINERS ''container'') []
       [Element (qname NAMESPACES_CONTAINERS ''rootfiles'') [] []]"

definition opf_doc :: bytes where
  \<open>opf_doc =
     ''<package xmlns="http://www.idpf.org/2007/opf"><manifest>''
     @ ''<item id="c1" href="c1.xhtml" media-type="application/xhtml+xml"/>''
     @ ''<item id="css" href="s.css" media-type="text/css"/>''
     @ ''<item id="c2" href="c2.xhtml" media-type="application/xhtml+xml"/>''
     @ ''</manifest></package>''\<close>

definition manifest_tree :: xml where
  "manifest_tree =
     Element (qname NAMESPACES_OPF ''manifest'') []
       [Element (qname NAMESPACES_OPF ''item'')
          [(''id'', ''c1''), (''href'', ''c1.xhtml''),
           (''media-type'', ''application/xhtml+xml'')] [],
        Element (qname NAMESPACES_OPF ''item'')
          [(''id'', ''css''), (''href'', ''s.css''), (''media-type'', ''text/css'')] [],
        Element (qname NAMESPACES_OPF ''item'')
          [(''id'', ''c2''), (''href'', ''c2.xhtml''),
           (''media-type'', ''application/xhtml+xml'')] []]"

definition opf_tree :: xml where
  "opf_tree = Element (qname NAMESPACES_OPF ''package'') [] [manifest_tree]"

definition example_fromstring :: "bytes \<Rightarrow> xml option" where
  "example_fromstring text =
     (if text = container_doc then Some container_tree
      else if text = blank_path_doc then Some blank_path_tree
      else if text = undeclared_doc then Some undeclared_tree
      else if text = opf_doc then Some opf_tree
      else None)"

definition example_collaborators :: collaborators where
  "example_collaborators = \<lparr>fromstring = example_fromstring, html2text = (\<lambda>s. s)\<rparr>"

definition mk_entry :: "bytes \<Rightarrow> bytes list \<Rightarrow> entry" where
  "mk_entry p chunks = \<lparr>file_path = p, file_size = None, unzipped_chunks = chunks\<rparr>"

text \<open>A well-formed publication; the rootfile arrives in two chunks.\<close>

definition good_archive :: "entry list" where
  "good_archive =
     [mk_entry ''mimetype'' [''application/epub+zip''],
      mk_entry ''META-INF/container.xml'' [container_doc],
      mk_entry ''OEBPS/content.opf'' [take 40 opf_doc, drop 40 opf_doc],
      mk_entry ''OEBPS/c1.xhtml'' [''<p>One</p>''],
      mk_entry ''OEBPS/s.css'' [''p {}''],
      mk_entry ''OEBPS/c2.xhtml'' [''<p>Two</p>'']]"


text \<open>The same publication, with the second chapter left out of the archive.\<close>

definition dangling_archive :: "entry list" where
  "dangling_archive =
     [mk_entry ''META-INF/container.xml'' [container_doc],
      mk_entry ''OEBPS/content.opf'' [opf_doc],
      mk_entry ''OEBPS/c1.xhtml'' [''<p>One</p>'']]"



text \<open>A container that declares a rootfile the archive does not hold.\<close>

definition rootless_archive :: "entry list" where
  "rootless_archive = [mk_entry ''META-INF/container.xml'' [container_doc]]"




text \<open>A file map wrapped one directory deeper, with one file in the wrapping directory.\<close>

definition wrapped_files :: "(string \<times> bytes) list" where
  "wrapped_files =
     [(''book/OEBPS/content.opf'', ''A''), (''readme.xml'', ''B''), (''book/OEBPS/c1.xhtml'', ''C'')]"

text \<open>An entry for the container that carries no chunk at all.\<close>

definition empty_container_entry :: entry where
  "empty_container_entry = mk_entry ''META-INF/container.xml'' []"

section \<open>Properties\<close>

subsection \<open>The concatenated dump\<close>

lemma fold_append_concat: "fold (\<lambda>text epub_text. epub_text @ text) ts acc = acc @ concat ts"
  by (induction ts arbitrary: acc) simp_all

text \<open>
  C2. For every Epub, \<open>dump_contents\<close> is the left-to-right concatenation of its texts,
  with nothing in between; it is the empty string when there are no texts.
\<close>

theorem dump_contents_is_concat:
  "dump_contents self = concat (texts self)
   \<and> dump_contents \<lparr>texts = []\<rparr> = []
   \<and> dump_contents \<lparr>texts = t # ts\<rparr> = t @ dump_contents \<lparr>texts = ts\<rparr>"
  by (simp add: dump_contents_def fold_append_concat)

subsection \<open>Entries without chunks\<close>

lemma entries_loop_append:
  "entries_loop X (xs @ ys) st =
     (case entries_loop X xs st of Inl err \<Rightarrow> Inl err | Inr st' \<Rightarrow> entries_loop X ys st')"
  by (induction xs arbitrary: st) (simp_all split: sum.splits)

lemma process_entry_no_chunks:
  "unzipped_chunks e = [] \<Longrightarrow>
   process_entry X e st = (if utf8_valid (file_path e) then Inr st else Inl UnicodeDecodeError)"
  by (simp add: process_entry_def decode_def read_unzipped_chunks_def)

text \<open>
  C10. For an entry with zero chunks, \<open>read_unzipped_chunks\<close> returns \<open>None\<close> whatever
  the classification of the entry, so the entry is neither kept as a file nor read as
  a container: the loop of \<open>uncompress_epub\<close> leaves the file map and the rootfiles as
  they are (once the path of the entry has been decoded), and the archive gives the
  same result as the archive without the entry.
\<close>

theorem empty_entry_is_omitted:
  assumes "unzipped_chunks e = []"
  shows "read_unzipped_chunks (unzipped_chunks e) is_text = None
       \<and> retained e = None
       \<and> container_payload e = None
       \<and> process_entry X e st =
           (if utf8_valid (file_path e) then Inr st else Inl UnicodeDecodeError)
       \<and> (utf8_valid (file_path e) \<longrightarrow>
           uncompress_epub X (before @ e # after) = uncompress_epub X (before @ after))"
proof -
  have c: "read_unzipped_chunks (unzipped_chunks e) is_text = None"
    using assms by (simp add: read_unzipped_chunks_def)
  have r: "retained e = None"
    using assms by (simp add: retained_def read_unzipped_chunks_def split: sum.splits)
  have k: "container_payload e = None"
    using r by (simp add: container_payload_def)
  have p: "process_entry X e s =
             (if utf8_valid (file_path e) then Inr s else Inl UnicodeDecodeError)" for s
    using assms by (rule process_entry_no_chunks)
  have u: "uncompress_epub X (before @ e # after) = uncompress_epub X (before @ after)"
    if "utf8_valid (file_path e)"
  proof -
    have "entries_loop X (before @ e # after) s = entries_loop X (before @ after) s" for s
      using that by (simp add: entries_loop_append p split: sum.splits)
    then show ?thesis
      by (simp add: uncompress_epub_def)
  qed
  from c r k p u show ?thesis
    by blast
qed

theorem empty_entry_is_omitted_witness:
  "unzipped_chunks empty_container_entry = []
   \<and> utf8_valid (file_path empty_container_entry)
   \<and> is_textfile ''META-INF/container.xml''
   \<and> read_unzipped_chunks (unzipped_chunks empty_container_entry) True = None
   \<and> process_entry example_collaborators empty_container_entry ([], [''OEBPS/content.opf''])
       = Inr ([], [''OEBPS/content.opf''])
   \<and> uncompress_epub example_collaborators (good_archive @ empty_container_entry # [])
       = uncompress_epub example_collaborators (good_archive @ [])"
proof -
  have h: "unzipped_chunks empty_container_entry = []"
    by (simp add: empty_container_entry_def mk_entry_def)
  have v: "utf8_valid (file_path empty_container_entry)"
    by code_simp
  have t: "is_textfile ''META-INF/container.xml''"
    by code_simp
  from empty_entry_is_omitted [OF h, of True example_collaborators
      "([], [''OEBPS/content.opf''])" good_archive "[]"] h v t
  show ?thesis
    by simp
qed

subsection \<open>Classification of entries\<close>













subsection \<open>Rootfile declarations\<close>

lemma map_filter_filter:
  "List.map_filter f (filter P xs) = List.map_filter (\<lambda>x. if P x then f x else None) xs"
  by (induction xs) (auto split: option.splits)

lemma rootfile_loop_eq:
  "rootfile_loop nodes acc =
     acc @ List.map_filter
             (\<lambda>n. if get n ''media-type'' = Some ''application/oebps-package+xml''
                   then get n ''full-path'' else None) nodes"
  by (induction nodes arbitrary: acc)
     (simp_all add: Let_def split: option.splits)

lemma rootfile_loop_findall:
  "rootfile_loop (findall_rootfile tree) [] = List.map_filter declared_path (descendants tree)"
proof -
  have "(\<lambda>x. if has_tag x (qname NAMESPACES_CONTAINERS ''rootfile'') \<and> get x ''media-type'' \<noteq> None
          then if get x ''media-type'' = Some ''application/oebps-package+xml''
               then get x ''full-path'' else None
          else None) = declared_path"
    by (rule ext) (auto simp add: declared_path_def)
  then show ?thesis
    by (simp add: rootfile_loop_eq findall_rootfile_def map_filter_filter)
qed

text \<open>
  C6, as the code has it. For a container that parses to a tree, \<open>extract_root_path\<close>
  returns the \<^verbatim>\<open>full-path\<close> values of exactly the descendants of the root that are
  \<^verbatim>\<open>{CONTAINERS}rootfile\<close> elements with media type \<^verbatim>\<open>application/oebps-package+xml\<close>
  and a \<^verbatim>\<open>full-path\<close> attribute (empty or not), in document order, duplicates kept;
  every other node contributes nothing.
\<close>

theorem extract_root_path_declared:
  assumes "parse_as_etree X container_file = Inr (Some tree)"
  shows "extract_root_path X container_file = Inr (List.map_filter declared_path (descendants tree))
       \<and> (declared_path node = Some p \<longleftrightarrow>
            has_tag node (qname NAMESPACES_CONTAINERS ''rootfile'')
            \<and> get node ''media-type'' = Some ''application/oebps-package+xml''
            \<and> get node ''full-path'' = Some p)"
  using assms by (auto simp add: extract_root_path_def rootfile_loop_findall declared_path_def)

theorem extract_root_path_declared_witness:
  "parse_as_etree example_collaborators container_doc = Inr (Some container_tree)
   \<and> extract_root_path example_collaborators container_doc = Inr [''OEBPS/content.opf'']"
proof -
  have h: "parse_as_etree example_collaborators container_doc = Inr (Some container_tree)"
    by code_simp
  have d: "List.map_filter declared_path (descendants container_tree) = [''OEBPS/content.opf'']"
    by code_simp
  from extract_root_path_declared [OF h] h d show ?thesis by simp
qed

text \<open>
  A rootfile whose \<^verbatim>\<open>full-path\<close> is the empty string is returned, where the demand of a
  non-empty \<^verbatim>\<open>full-path\<close> would leave it out.
\<close>

theorem blank_full_path_counterexample:
  "parse_as_etree example_collaborators blank_path_doc = Inr (Some blank_path_tree)
   \<and> extract_root_path example_collaborators blank_path_doc = Inr [[]]
   \<and> List.map_filter declared_nonempty_path (descendants blank_path_tree) = []"
  by code_simp

subsection \<open>Path normalization\<close>

lemma split_str_not_Nil: "split_str s c \<noteq> []"
  by (induction s) (auto split: list.splits)

lemma length_split_str: "length (split_str s c) = Suc (length (filter (\<lambda>x. x = c) s))"
  by (induction s) (auto split: list.splits simp add: split_str_not_Nil)

lemma one_segment_iff: "length (split_str s c) = 1 \<longleftrightarrow> c \<notin> set s"
  by (auto simp add: length_split_str filter_empty_conv)

lemma join_Cons_Cons: "join sep ((x # w) # ws) = x # join sep (w # ws)"
  by (cases ws) simp_all

lemma join_split_str: "join [c] (split_str s c) = s"
proof (induction s)
  case Nil
  show ?case by simp
next
  case (Cons x xs)
  obtain w ws where w: "split_str xs c = w # ws"
    using split_str_not_Nil by (cases "split_str xs c") auto
  with Cons show ?case
    by (auto simp add: join_Cons_Cons)
qed

lemma split_str_first:
  "c \<notin> set seg \<Longrightarrow> split_str (seg @ c # rest) c = seg # split_str rest c"
  by (induction seg) auto

lemma strip_first_segment_eq:
  "CHR ''/'' \<notin> set seg \<Longrightarrow> strip_first_segment (seg @ ''/'' @ rest) = rest"
  by (simp add: strip_first_segment_def split_str_first join_split_str)

lemma normalize_loop_map_of:
  "map_of (normalize_loop fmap acc) = map_of (rev (rekeyed fmap) @ acc)"
proof (induction fmap arbitrary: acc)
  case Nil
  show ?case by (simp add: rekeyed_def)
next
  case (Cons entry rest)
  obtain p payload where e: "entry = (p, payload)" by (cases entry)
  show ?case
  proof (cases "length (split_str p CHR ''/'') = 1")
    case True
    with Cons e show ?thesis by (simp add: rekeyed_def)
  next
    case False
    have "map_of (normalize_loop (entry # rest) acc)
          = map_of (rev (rekeyed rest) @ AList.update (strip_first_segment p) payload acc)"
      using False e Cons by (simp add: Let_def strip_first_segment_def)
    also have "\<dots> = map_of (rev (rekeyed rest) @ (strip_first_segment p, payload) # acc)"
      by (simp add: update_conv')
    also have "\<dots> = map_of (rev (rekeyed (entry # rest)) @ acc)"
      using False e by (simp add: rekeyed_def)
    finally show ?thesis .
  qed
qed

lemma normalize_loop_distinct:
  "distinct (map fst acc) \<Longrightarrow> distinct (map fst (normalize_loop fmap acc))"
  by (induction fmap arbitrary: acc) (auto simp add: Let_def distinct_update)

lemma keys_rekeyed:
  "fst ` set (rekeyed fmap) =
     {strip_first_segment p | p. p \<in> fst ` set fmap \<and> length (split_str p CHR ''/'') \<noteq> 1}"
  by (force simp add: rekeyed_def)

lemma normalize_loop_keys:
  "fst ` set (normalize_loop fmap []) =
     {strip_first_segment p | p. p \<in> fst ` set fmap \<and> length (split_str p CHR ''/'') \<noteq> 1}"
proof -
  have "fst ` set (normalize_loop fmap []) = dom (map_of (normalize_loop fmap []))"
    by (simp add: dom_map_of_conv_image_fst)
  also have "\<dots> = dom (map_of (rev (rekeyed fmap)))"
    by (simp add: normalize_loop_map_of)
  also have "\<dots> = fst ` set (rekeyed fmap)"
    by (simp add: dom_map_of_conv_image_fst)
  finally show ?thesis
    by (simp add: keys_rekeyed)
qed

text \<open>
  C4. For a non-empty list of rootfiles: if the first rootfile path is a key of the
  file map, \<open>normalize_path\<close> returns the map as it is; so normalizing a map that already
  holds the first rootfile path, in particular the result of an earlier normalization
  that does, changes nothing. Otherwise it returns the map whose keys are the paths of
  more than one segment with their first segment dropped, each with the payload of its
  entry (of the last such entry, where two paths get the same key); paths of one
  segment, that is paths without a slash, are discarded.
\<close>

theorem normalize_path_cases:
  assumes "rfiles = first # others"
  shows "(contains fmap first \<longrightarrow> normalize_path rfiles fmap = Inr fmap)
       \<and> (\<not> contains fmap first \<longrightarrow>
           (\<exists>normalized. normalize_path rfiles fmap = Inr normalized
              \<and> distinct (map fst normalized)
              \<and> map_of normalized = map_of (rev (rekeyed fmap))
              \<and> fst ` set normalized =
                  {strip_first_segment p | p.
                     p \<in> fst ` set fmap \<and> length (split_str p CHR ''/'') \<noteq> 1}))
       \<and> (normalize_path rfiles fmap = Inr normalized \<and> contains normalized first \<longrightarrow>
            normalize_path rfiles normalized = Inr normalized)
       \<and> (length (split_str p CHR ''/'') = 1 \<longleftrightarrow> CHR ''/'' \<notin> set p)
       \<and> (CHR ''/'' \<notin> set seg \<longrightarrow> strip_first_segment (seg @ ''/'' @ rest) = rest)"
proof -
  have a: "contains fmap first \<longrightarrow> normalize_path rfiles fmap = Inr fmap"
    using assms by (simp add: normalize_path_def index0_def)
  have b: "\<not> contains fmap first \<longrightarrow>
           (\<exists>normalized. normalize_path rfiles fmap = Inr normalized
              \<and> distinct (map fst normalized)
              \<and> map_of normalized = map_of (rev (rekeyed fmap))
              \<and> fst ` set normalized =
                  {strip_first_segment p | p.
                     p \<in> fst ` set fmap \<and> length (split_str p CHR ''/'') \<noteq> 1})"
  proof
    assume "\<not> contains fmap first"
    then have "normalize_path rfiles fmap = Inr (normalize_loop fmap [])"
      using assms by (simp add: normalize_path_def index0_def)
    moreover have "distinct (map fst (normalize_loop fmap []))"
      by (simp add: normalize_loop_distinct)
    moreover have "map_of (normalize_loop fmap []) = map_of (rev (rekeyed fmap))"
      by (simp add: normalize_loop_map_of)
    ultimately show "\<exists>normalized. normalize_path rfiles fmap = Inr normalized
              \<and> distinct (map fst normalized)
              \<and> map_of normalized = map_of (rev (rekeyed fmap))
              \<and> fst ` set normalized =
                  {strip_first_segment p | p.
                     p \<in> fst ` set fmap \<and> length (split_str p CHR ''/'') \<noteq> 1}"
      using normalize_loop_keys by blast
  qed
  have c: "normalize_path rfiles fmap = Inr normalized \<and> contains normalized first \<longrightarrow>
            normalize_path rfiles normalized = Inr normalized"
    using assms by (simp add: normalize_path_def index0_def)
  have d: "length (split_str p CHR ''/'') = 1 \<longleftrightarrow> CHR ''/'' \<notin> set p"
    by (rule one_segment_iff)
  have e: "CHR ''/'' \<notin> set seg \<longrightarrow> strip_first_segment (seg @ ''/'' @ rest) = rest"
    using strip_first_segment_eq by blast
  from a b c d e show ?thesis by blast
qed

theorem normalize_path_cases_witness:
  "\<not> contains wrapped_files ''OEBPS/content.opf''
   \<and> normalize_path [''OEBPS/content.opf''] wrapped_files
       = Inr [(''OEBPS/content.opf'', ''A''), (''OEBPS/c1.xhtml'', ''C'')]
   \<and> contains [(''OEBPS/content.opf'', ''A''), (''OEBPS/c1.xhtml'', ''C'')] ''OEBPS/content.opf''
   \<and> normalize_path [''OEBPS/content.opf'']
        [(''OEBPS/content.opf'', ''A''), (''OEBPS/c1.xhtml'', ''C'')]
       = Inr [(''OEBPS/content.opf'', ''A''), (''OEBPS/c1.xhtml'', ''C'')]
   \<and> map_of [(''OEBPS/content.opf'', ''A''), (''OEBPS/c1.xhtml'', ''C'')]
       = map_of (rev (rekeyed wrapped_files))
   \<and> CHR ''/'' \<notin> set ''book''
   \<and> strip_first_segment (''book'' @ ''/'' @ ''OEBPS/c1.xhtml'') = ''OEBPS/c1.xhtml''"
proof -
  have h1: "\<not> contains wrapped_files ''OEBPS/content.opf''"
    by code_simp
  have h2: "normalize_path [''OEBPS/content.opf''] wrapped_files
       = Inr [(''OEBPS/content.opf'', ''A''), (''OEBPS/c1.xhtml'', ''C'')]"
    by code_simp
  have h3: "contains [(''OEBPS/content.opf'', ''A''), (''OEBPS/c1.xhtml'', ''C'')] ''OEBPS/content.opf''"
    by code_simp
  have h4: "CHR ''/'' \<notin> set ''book''"
    by simp
  from normalize_path_cases [of "[''OEBPS/content.opf'']" "''OEBPS/content.opf''" "[]"
         wrapped_files "[(''OEBPS/content.opf'', ''A''), (''OEBPS/c1.xhtml'', ''C'')]"
         "''x''" "''book''" "''OEBPS/c1.xhtml''"]
       h1 h2 h3 h4
  show ?thesis by auto
qed

subsection \<open>Texts of a publication\<close>

lemma collect_Cons:
  "collect (r # rs) =
     (case r of Inl err \<Rightarrow> Inl err
      | Inr x \<Rightarrow> (case collect rs of Inl err \<Rightarrow> Inl err | Inr xs \<Rightarrow> Inr (x # xs)))"
  by (cases r) simp_all

lemma collect_map_Inr: "collect (map Inr xs) = Inr xs"
  by (induction xs) simp_all

lemma collect_Inr_D: "collect rs = Inr xs \<Longrightarrow> rs = map Inr xs"
  by (induction rs arbitrary: xs rule: collect.induct) (auto split: sum.splits)

lemma collect_Inr_iff: "collect rs = Inr xs \<longleftrightarrow> rs = map Inr xs"
  using collect_map_Inr collect_Inr_D by blast

















subsection \<open>One publication per rootfile\<close>

lemma publication_loop_step:
  "publication_loop X fmap (p # rest) acc =
     (case publication X fmap p of
        Inl err \<Rightarrow> Inl err
      | Inr epub \<Rightarrow> publication_loop X fmap rest (acc @ [epub]))"
  by (simp add: publication_def split: sum.splits)

lemma publication_loop_eq:
  "publication_loop X fmap rfiles acc =
     (case collect (map (publication X fmap) rfiles) of
        Inl err \<Rightarrow> Inl err
      | Inr epubs \<Rightarrow> Inr (acc @ epubs))"
proof (induction rfiles arbitrary: acc)
  case Nil
  show ?case by simp
next
  case (Cons p rest)
  show ?case
    unfolding publication_loop_step
    by (simp add: Cons collect_Cons split: sum.splits)
qed

lemma read_uncompressed_epubs_eq:
  "read_uncompressed_epubs X u = collect (map (publication X (files u)) (rootfiles u))"
  by (simp add: read_uncompressed_epubs_def publication_loop_eq split: sum.splits)

lemma read_Inr:
  assumes "read X stream = Inr epubs"
  shows "\<exists>u. uncompress_epub X stream = Inr u
           \<and> map (publication X (files u)) (rootfiles u) = map Inr epubs"
proof -
  from assms obtain u where u: "uncompress_epub X stream = Inr u"
    and "read_uncompressed_epubs X u = Inr epubs"
    by (auto simp add: read_def split: sum.splits)
  then have "map (publication X (files u)) (rootfiles u) = map Inr epubs"
    by (simp add: read_uncompressed_epubs_eq collect_Inr_iff)
  with u show ?thesis by blast
qed

lemma process_entry_cases:
  obtains (undecodable) "decode (file_path e) = Inl UnicodeDecodeError"
      "process_entry X e st = Inl UnicodeDecodeError" "\<not> utf8_valid (file_path e)"
    | (drained) p where "decode (file_path e) = Inr p" "retained e = None"
      "container_payload e = None" "process_entry X e st = Inr st"
    | (container) p b where "decode (file_path e) = Inr p" "retained e = Some (p, b)"
      "container_payload e = Some b"
      "process_entry X e st =
         (case extract_root_path X b of Inl err \<Rightarrow> Inl err | Inr r \<Rightarrow> Inr (fst st, r))"
    | (stored) p b where "decode (file_path e) = Inr p" "retained e = Some (p, b)"
      "container_payload e = None"
      "process_entry X e st = Inr (AList.update p b (fst st), snd st)"
proof (cases "utf8_valid (file_path e)")
  case False
  then have "decode (file_path e) = Inl UnicodeDecodeError"
    by (simp add: decode_def)
  moreover from this have "process_entry X e st = Inl UnicodeDecodeError"
    by (simp add: process_entry_def)
  ultimately show ?thesis using False by (rule undecodable)
next
  case True
  define p where "p = file_path e"
  have d: "decode (file_path e) = Inr p"
    using True by (simp add: decode_def p_def)
  show ?thesis
  proof (cases "read_unzipped_chunks (unzipped_chunks e) (is_textfile p)")
    case None
    have "retained e = None"
      using d None by (simp add: retained_def)
    moreover from this have "container_payload e = None"
      by (simp add: container_payload_def)
    moreover have "process_entry X e st = Inr st"
      using d None by (simp add: process_entry_def)
    ultimately show ?thesis using d drained by blast
  next
    case (Some b)
    have r: "retained e = Some (p, b)"
      using d Some by (simp add: retained_def)
    show ?thesis
    proof (cases "basename p = ''container.xml''")
      case True
      have "container_payload e = Some b"
        using r True by (simp add: container_payload_def)
      moreover have "process_entry X e st =
         (case extract_root_path X b of Inl err \<Rightarrow> Inl err | Inr r \<Rightarrow> Inr (fst st, r))"
        using d Some True by (simp add: process_entry_def)
      ultimately show ?thesis using d r container by blast
    next
      case False
      have "container_payload e = None"
        using r False by (simp add: container_payload_def)
      moreover have "process_entry X e st = Inr (AList.update p b (fst st), snd st)"
        using d Some False by (simp add: process_entry_def)
      ultimately show ?thesis using d r stored by blast
    qed
  qed
qed

lemma process_entry_rootfiles:
  assumes "process_entry X e (f0, r0) = Inr (f, r)"
  shows "r = r0 \<or> (\<exists>b. container_payload e = Some b \<and> extract_root_path X b = Inr r)"
proof (cases rule: process_entry_cases [of e X "(f0, r0)"])
  case undecodable
  with assms show ?thesis by simp
next
  case (drained p)
  with assms show ?thesis by simp
next
  case (container p b)
  with assms show ?thesis by (auto split: sum.splits)
next
  case (stored p b)
  with assms show ?thesis by simp
qed

lemma entries_loop_rootfiles:
  "entries_loop X stream (f0, r0) = Inr (f, r) \<Longrightarrow>
   r = r0 \<or> (\<exists>e \<in> set stream. \<exists>b. container_payload e = Some b \<and> extract_root_path X b = Inr r)"
proof (induction stream arbitrary: f0 r0)
  case Nil
  then show ?case by simp
next
  case (Cons e es)
  from Cons.prems obtain f1 r1 where s: "process_entry X e (f0, r0) = Inr (f1, r1)"
    and l: "entries_loop X es (f1, r1) = Inr (f, r)"
    by (auto split: sum.splits)
  from Cons.IH [OF l] process_entry_rootfiles [OF s] show ?case
    by auto
qed

lemma uncompress_epub_Inr:
  assumes "uncompress_epub X stream = Inr u"
  shows "rootfiles u \<noteq> []
       \<and> (\<exists>e \<in> set stream. \<exists>b. container_payload e = Some b
             \<and> extract_root_path X b = Inr (rootfiles u))"
proof -
  from assms obtain f r where l: "entries_loop X stream ([], []) = Inr (f, r)"
    and n: "r \<noteq> []" and r: "rootfiles u = r"
    by (auto simp add: uncompress_epub_def split: sum.splits if_splits)
  from entries_loop_rootfiles [OF l] n r show ?thesis
    by auto
qed

lemma read_Inr_nth:
  assumes "read X stream = Inr epubs"
  shows "\<exists>u. uncompress_epub X stream = Inr u
           \<and> length epubs = length (rootfiles u)
           \<and> (\<forall>i < length epubs. publication X (files u) (rootfiles u ! i) = Inr (epubs ! i))"
proof -
  from read_Inr [OF assms] obtain u where u: "uncompress_epub X stream = Inr u"
    and m: "map (publication X (files u)) (rootfiles u) = map Inr epubs"
    by blast
  from m have len: "length epubs = length (rootfiles u)"
    by (metis length_map)
  have "publication X (files u) (rootfiles u ! i) = Inr (epubs ! i)" if "i < length epubs" for i
  proof -
    from that len have "map (publication X (files u)) (rootfiles u) ! i
                        = publication X (files u) (rootfiles u ! i)"
      by simp
    moreover from that have "map Inr epubs ! i = (Inr (epubs ! i) :: error + Epub)"
      by simp
    ultimately show ?thesis using m by simp
  qed
  with u len show ?thesis
    by blast
qed

text \<open>
  C1. When \<open>read\<close> succeeds on an archive, the rootfiles of the uncompressed archive are
  the ones a container entry of the archive declares, \<open>read\<close> returns exactly as many
  Epubs as there are rootfiles, and the \<open>i\<close>-th Epub is the publication of the \<open>i\<close>-th
  declared rootfile.
\<close>

theorem read_one_epub_per_rootfile:
  assumes "read X stream = Inr epubs"
  shows "\<exists>u. uncompress_epub X stream = Inr u
           \<and> length epubs = length (rootfiles u)
           \<and> (\<forall>i < length epubs. publication X (files u) (rootfiles u ! i) = Inr (epubs ! i))
           \<and> (\<exists>e \<in> set stream. \<exists>b. container_payload e = Some b
                 \<and> extract_root_path X b = Inr (rootfiles u))"
proof -
  from read_Inr_nth [OF assms] obtain u where u: "uncompress_epub X stream = Inr u"
    and "length epubs = length (rootfiles u)"
    and "\<forall>i < length epubs. publication X (files u) (rootfiles u ! i) = Inr (epubs ! i)"
    by blast
  with uncompress_epub_Inr [OF u] show ?thesis
    by blast
qed

theorem read_one_epub_per_rootfile_witness:
  "read example_collaborators good_archive = Inr [\<lparr>texts = [''<p>One</p>'', ''<p>Two</p>'']\<rparr>]
   \<and> (\<exists>u. uncompress_epub example_collaborators good_archive = Inr u
         \<and> length (rootfiles u) = 1
         \<and> publication example_collaborators (files u) (rootfiles u ! 0)
             = Inr \<lparr>texts = [''<p>One</p>'', ''<p>Two</p>'']\<rparr>)"
proof -
  define epub where "epub = \<lparr>texts = [''<p>One</p>'', ''<p>Two</p>'']\<rparr>"
  have h: "read example_collaborators good_archive = Inr [epub]"
    unfolding epub_def by code_simp
  from read_one_epub_per_rootfile [OF h] obtain u
    where u: "uncompress_epub example_collaborators good_archive = Inr u"
      and len: "length [epub] = length (rootfiles u)"
      and pub: "\<forall>i < length [epub].
                  publication example_collaborators (files u) (rootfiles u ! i) = Inr ([epub] ! i)"
    by blast
  from len have l: "length (rootfiles u) = 1"
    by simp
  from pub have p: "publication example_collaborators (files u) (rootfiles u ! 0) = Inr epub"
    by simp
  from h u l p show ?thesis
    unfolding epub_def by blast
qed

subsection \<open>Dangling references\<close>







subsection \<open>Rootfiles absent from the file map\<close>

lemma index0_split_str: "\<exists>d. index0 (split_str path c) = Inr d"
  using split_str_not_Nil [of path c]
  by (cases "split_str path c") (simp_all add: index0_def)

lemma publication_absent:
  "\<not> contains fmap path \<Longrightarrow> publication X fmap path = Inl (KeyError path)"
  using index0_split_str [of path "CHR ''/''"]
  by (auto simp add: publication_def getitem_def contains_def)

lemma publication_present:
  "publication X fmap path = Inr epub \<Longrightarrow> contains fmap path"
  by (auto simp add: publication_def getitem_def contains_def split: sum.splits option.splits)

lemma read_eq_collect:
  "uncompress_epub X stream = Inr u \<Longrightarrow>
   read X stream = collect (map (publication X (files u)) (rootfiles u))"
  by (simp add: read_def read_uncompressed_epubs_eq)

lemma collect_prefix_error:
  assumes "\<forall>x \<in> set before. \<exists>y. f x = Inr y" and "f x = Inl err"
  shows "collect (map f (before @ x # after)) = Inl err"
  using assms by (induction before) (auto split: sum.splits)

text \<open>
  C9, as the code has it. For the uncompressed archive that \<open>read\<close> goes on to consume:
  when \<open>read\<close> succeeds, every declared rootfile path is a key of the file map; when some
  declared rootfile path is not a key, \<open>read\<close> fails, and it fails with the \<^verbatim>\<open>KeyError\<close>
  of the first absent rootfile path when the publications of the rootfiles before it
  are extracted without error. No execution completes with an absent rootfile.
\<close>

theorem absent_rootfile_fails:
  assumes "uncompress_epub X stream = Inr u"
  shows "(read X stream = Inr epubs \<longrightarrow> (\<forall>p \<in> set (rootfiles u). contains (files u) p))
       \<and> ((\<exists>p \<in> set (rootfiles u). \<not> contains (files u) p) \<longrightarrow>
            (\<exists>err. read X stream = Inl err))
       \<and> (rootfiles u = before @ p # after
            \<and> (\<forall>q \<in> set before. \<exists>epub. publication X (files u) q = Inr epub)
            \<and> \<not> contains (files u) p \<longrightarrow>
            read X stream = Inl (KeyError p))"
proof -
  note eq = read_eq_collect [OF assms]
  have a: "\<forall>p \<in> set (rootfiles u). contains (files u) p" if "read X stream = Inr epubs" for epubs
  proof
    fix p assume p: "p \<in> set (rootfiles u)"
    from that eq have "map (publication X (files u)) (rootfiles u) = map Inr epubs"
      by (simp add: collect_Inr_iff)
    with p have "publication X (files u) p \<in> set (map Inr epubs)"
      by (metis image_eqI set_map)
    then obtain epub where "publication X (files u) p = Inr epub"
      by auto
    then show "contains (files u) p" by (rule publication_present)
  qed
  have b: "\<exists>err. read X stream = Inl err"
    if "\<exists>p \<in> set (rootfiles u). \<not> contains (files u) p"
  proof (cases "read X stream")
    case (Inl err)
    then show ?thesis by blast
  next
    case (Inr eps)
    from a [OF Inr] that show ?thesis by blast
  qed
  have c: "read X stream = Inl (KeyError p)"
    if "rootfiles u = before @ p # after"
      and "\<forall>q \<in> set before. \<exists>epub. publication X (files u) q = Inr epub"
      and "\<not> contains (files u) p"
    using eq that(1) collect_prefix_error [OF that(2) publication_absent [OF that(3)]]
    by simp
  from a b c show ?thesis by blast
qed

theorem absent_rootfile_fails_witness:
  "uncompress_epub example_collaborators rootless_archive
     = Inr \<lparr>rootfiles = [''OEBPS/content.opf''], files = []\<rparr>
   \<and> \<not> contains ([] :: (string \<times> bytes) list) ''OEBPS/content.opf''
   \<and> read example_collaborators rootless_archive = Inl (KeyError ''OEBPS/content.opf'')"
proof -
  define u where "u = \<lparr>rootfiles = [''OEBPS/content.opf''], files = []\<rparr>"
  have h1: "uncompress_epub example_collaborators rootless_archive = Inr u"
    unfolding u_def by code_simp
  have h2: "rootfiles u = [] @ ''OEBPS/content.opf'' # []"
    by (simp add: u_def)
  have h3: "\<not> contains (files u) ''OEBPS/content.opf''"
    by (simp add: u_def contains_def)
  have h4: "\<forall>q \<in> set []. \<exists>epub. publication example_collaborators (files u) q = Inr epub"
    by simp
  from absent_rootfile_fails [OF h1, of _ "[]" "''OEBPS/content.opf''" "[]"] h2 h3 h4
  have "read example_collaborators rootless_archive = Inl (KeyError ''OEBPS/content.opf'')"
    by blast
  with h1 h3 show ?thesis
    by (simp add: u_def)
qed

text \<open>
  The failure on an absent rootfile is a lookup error, not a structural one: the
  container declares a rootfile that the archive does not hold.
\<close>

theorem absent_rootfile_counterexample:
  "uncompress_epub example_collaborators rootless_archive
     = Inr \<lparr>rootfiles = [''OEBPS/content.opf''], files = []\<rparr>
   \<and> \<not> contains ([] :: (string \<times> bytes) list) ''OEBPS/content.opf''
   \<and> read_uncompressed_epubs example_collaborators
        \<lparr>rootfiles = [''OEBPS/content.opf''], files = []\<rparr> = Inl (KeyError ''OEBPS/content.opf'')
   \<and> read example_collaborators rootless_archive = Inl (KeyError ''OEBPS/content.opf'')
   \<and> \<not> is_structural (KeyError ''OEBPS/content.opf'')"
  by code_simp

subsection \<open>Archives that declare no rootfile\<close>





end
